theory Spec2Isabelle
  imports Complex_Main
begin

section \<open>Sensor firmware (ESP32 + HC-SR04)\<close>

text \<open>
  The firmware computes on C \<^verbatim>\<open>float\<close> values. They are modelled by exact
  real numbers: the properties below concern which samples are selected and how the
  debounce counters move, not rounding. The \<^verbatim>\<open>int\<close> counter of the
  firmware is 32 bits wide; its increment is modelled with two's-complement
  wrap-around written out.
\<close>

subsection \<open>Configuration constants\<close>

definition OCCUPIED_THRESHOLD_CM :: int where
  "OCCUPIED_THRESHOLD_CM = 200"

definition MEASUREMENT_SAMPLES :: nat where
  "MEASUREMENT_SAMPLES = 5"

definition DEBOUNCE_COUNT :: int where
  "DEBOUNCE_COUNT = 3"

text \<open>The sensor limits of the configuration header (not read by the firmware's filter).\<close>

definition MIN_DISTANCE_CM :: int where
  "MIN_DISTANCE_CM = 2"

definition MAX_DISTANCE_CM :: int where
  "MAX_DISTANCE_CM = 400"

subsection \<open>Sampling\<close>

text \<open>
  \<^verbatim>\<open>measureDistance\<close>: the argument is the echo pulse width in microseconds that
  \<^verbatim>\<open>pulseIn\<close> returned (0 on timeout). The result is the distance in cm, or
  the error value -1.
\<close>

definition measureDistance :: "int \<Rightarrow> real" where
  "measureDistance duration =
     (if duration = 0 then - 1
      else (real_of_int duration * 0.0343) / 2)"

text \<open>
  The body of the \<^verbatim>\<open>for\<close> loop of \<^verbatim>\<open>getAverageDistance\<close>, run over the
  results of its successive \<^verbatim>\<open>measureDistance()\<close> calls; the accumulator is
  \<^verbatim>\<open>(total, valid_readings)\<close> (\<open>total\<close> is written \<open>total_cm\<close>, the name
  being taken in HOL).
\<close>

fun sample_loop :: "real list \<Rightarrow> real \<times> int \<Rightarrow> real \<times> int" where
  "sample_loop [] (total_cm, valid_readings) = (total_cm, valid_readings)"
| "sample_loop (distance # rest) (total_cm, valid_readings) =
     (if distance > 0 \<and> distance < 400
      then sample_loop rest (total_cm + distance, valid_readings + 1)
      else sample_loop rest (total_cm, valid_readings))"

text \<open>
  \<^verbatim>\<open>getAverageDistance\<close> on the list of the measurements it takes (the firmware
  takes \<open>MEASUREMENT_SAMPLES\<close> of them). The failure value is -1.
\<close>

definition getAverageDistance :: "real list \<Rightarrow> real" where
  "getAverageDistance samples =
     (case sample_loop samples (0, 0) of
        (total_cm, valid_readings) \<Rightarrow>
          if valid_readings = 0 then - 1
          else total_cm / real_of_int valid_readings)"

subsection \<open>Debouncing\<close>

record sensor_state =
  current_occupied :: bool
  previous_occupied :: bool
  consecutive_readings :: int

definition initial_state :: sensor_state where
  "initial_state =
     \<lparr>current_occupied = False, previous_occupied = False, consecutive_readings = 0\<rparr>"

text \<open>
  What one call of \<^verbatim>\<open>performSensorReading\<close> sends out, in order: the lines on
  the serial console that carry a value, the LED write, and the calls of
  \<^verbatim>\<open>publishError\<close> and \<^verbatim>\<open>publishSensorData\<close> with their arguments. The
  banner line that opens every call is not recorded. \<open>Serial_Current_Status\<close> carries
  the status, the counter and \<open>DEBOUNCE_COUNT\<close> of the line
  \<^verbatim>\<open>Current status: %s (confidence: %d/%d)\<close>.
\<close>

datatype event =
    Serial_Read_Error
  | Publish_Error string
  | Serial_Average_Distance real
  | Serial_Status_Change bool bool
  | Led_Write bool
  | Publish_Sensor_Data real bool
  | Serial_Current_Status bool int int

text \<open>Increment of a 32-bit signed counter.\<close>

definition incr_int32 :: "int \<Rightarrow> int" where
  "incr_int32 x = (x + 1 + 2147483648) mod 4294967296 - 2147483648"

text \<open>
  \<^verbatim>\<open>performSensorReading\<close>, on the measurements of its
  \<^verbatim>\<open>getAverageDistance()\<close> call and the global variables. It returns the events
  and the new values of the globals.
\<close>

definition performSensorReading :: "real list \<Rightarrow> sensor_state \<Rightarrow> event list \<times> sensor_state" where
  "performSensorReading samples s =
     (let distance = getAverageDistance samples in
      if distance < 0
      then ([Serial_Read_Error, Publish_Error ''sensor_read_error''], s)
      else
        let is_occupied = (distance < real_of_int OCCUPIED_THRESHOLD_CM);
            s1 = (if is_occupied = current_occupied s
                  then s\<lparr>consecutive_readings := incr_int32 (consecutive_readings s)\<rparr>
                  else s\<lparr>consecutive_readings := 1, current_occupied := is_occupied\<rparr>);
            (ev, s2) =
              (if consecutive_readings s1 \<ge> DEBOUNCE_COUNT
               then
                 (if current_occupied s1 \<noteq> previous_occupied s1
                  then ([Serial_Status_Change (previous_occupied s1) (current_occupied s1),
                         Led_Write (current_occupied s1),
                         Publish_Sensor_Data distance (current_occupied s1)],
                        s1\<lparr>previous_occupied := current_occupied s1\<rparr>)
                  else ([Publish_Sensor_Data distance (current_occupied s1)], s1))
               else ([], s1))
        in (Serial_Average_Distance distance # ev @
              [Serial_Current_Status (current_occupied s2) (consecutive_readings s2) DEBOUNCE_COUNT],
            s2))"

text \<open>
  The readings of \<^verbatim>\<open>setup\<close> and of the iterations of \<^verbatim>\<open>loop\<close>, one batch
  of measurements per call of \<^verbatim>\<open>performSensorReading\<close>.
\<close>

fun sensor_loop :: "real list list \<Rightarrow> sensor_state \<Rightarrow> event list \<times> sensor_state" where
  "sensor_loop [] s = ([], s)"
| "sensor_loop (samples # rest) s =
     (case performSensorReading samples s of
        (ev, s') \<Rightarrow> (case sensor_loop rest s' of (evs, s'') \<Rightarrow> (ev @ evs, s'')))"

text \<open>The averaged distances that passed the error check, oldest first.\<close>

definition filtered_readings :: "real list list \<Rightarrow> real list" where
  "filtered_readings batches = filter (\<lambda>d. \<not> d < 0) (map getAverageDistance batches)"

text \<open>The status changes among the events, as pairs (previous, new), oldest first.\<close>

fun status_changes :: "event list \<Rightarrow> (bool \<times> bool) list" where
  "status_changes [] = []"
| "status_changes (Serial_Status_Change p n # evs) = (p, n) # status_changes evs"
| "status_changes (_ # evs) = status_changes evs"

text \<open>
  The number of the most recent readings of \<open>ds\<close> (oldest first) that all have the
  candidate state \<open>c\<close>, a reading being a candidate for occupied when it is below the
  threshold.
\<close>

definition streak :: "bool \<Rightarrow> real list \<Rightarrow> nat" where
  "streak c ds =
     length (takeWhile (\<lambda>d. (d < real_of_int OCCUPIED_THRESHOLD_CM) = c) (rev ds))"

section \<open>Database schema (PostgreSQL)\<close>

text \<open>
  A table is the list of its rows; a row is a record of the columns that the modelled
  statements read or write (the others are carried along unchanged by every statement
  below and are left out). A column without \<^verbatim>\<open>NOT NULL\<close> is an option, \<open>None\<close>
  being \<^verbatim>\<open>NULL\<close>. A timestamp is a count of microseconds.
\<close>

type_synonym timestamp = int

datatype reservation_status = Active | Completed | Cancelled | Expired

record parking_spot =
  ps_id :: string
  ps_is_occupied :: "bool option"
  ps_is_reserved :: "bool option"
  ps_is_disabled :: "bool option"
  ps_last_updated :: "timestamp option"

record sensor_data_row =
  sd_sensor_id :: "string option"
  sd_timestamp :: "timestamp option"
  sd_occupied :: bool
  sd_distance_cm :: "real option"
  sd_battery_level :: "int option"
  sd_signal_strength :: "int option"

record reservation =
  r_id :: string
  r_spot_id :: "string option"
  r_start_time :: timestamp
  r_end_time :: timestamp
  r_status :: "reservation_status option"

record sensor_health_row =
  sh_sensor_id :: string
  sh_last_data_received :: "timestamp option"
  sh_battery_level :: "int option"
  sh_signal_strength :: "int option"
  sh_updated_at :: "timestamp option"

record database =
  parking_spots :: "parking_spot list"
  sensor_data :: "sensor_data_row list"
  reservations :: "reservation list"
  sensor_health :: "sensor_health_row list"

datatype sql_error = Not_Null_Violation | Foreign_Key_Violation | Check_Violation

text \<open>\<^verbatim>\<open>INTERVAL '1 hour'\<close>, in microseconds.\<close>

definition interval_1_hour :: int where
  "interval_1_hour = 3600000000"

subsection \<open>Views\<close>

text \<open>
  The \<^verbatim>\<open>status\<close> column of the view \<^verbatim>\<open>current_parking_status\<close> for a row of
  \<^verbatim>\<open>parking_spots\<close>. A \<^verbatim>\<open>WHEN\<close> whose condition is \<^verbatim>\<open>NULL\<close> is not taken.
\<close>

definition current_parking_status :: "parking_spot \<Rightarrow> string" where
  "current_parking_status ps =
     (if ps_is_disabled ps = Some True then ''disabled''
      else if ps_is_occupied ps = Some True then ''occupied''
      else if ps_is_reserved ps = Some True then ''reserved''
      else ''available'')"

text \<open>
  The reservation rows of the view \<^verbatim>\<open>active_reservations\<close> at the time \<open>now\<close>
  (\<^verbatim>\<open>CURRENT_TIMESTAMP\<close>): the inner join keeps a reservation whose spot exists;
  spot ids are a primary key, so a reservation is kept once.
\<close>

definition active_reservations :: "timestamp \<Rightarrow> database \<Rightarrow> reservation list" where
  "active_reservations now db =
     filter (\<lambda>r. list_ex (\<lambda>ps. r_spot_id r = Some (ps_id ps)) (parking_spots db)
                \<and> r_status r = Some Active
                \<and> r_start_time r \<le> now
                \<and> r_end_time r \<ge> now)
       (reservations db)"

subsection \<open>Functions and triggers\<close>

text \<open>
  \<^verbatim>\<open>update_spot_from_sensor\<close> for the inserted row \<open>NEW\<close>, at the time \<open>now\<close>.
  The insert into \<^verbatim>\<open>sensor_health\<close> raises when the sensor id is \<^verbatim>\<open>NULL\<close>
  (primary key) or is no spot's id (foreign key); then nothing is changed.
\<close>

definition update_spot_from_sensor ::
  "sensor_data_row \<Rightarrow> timestamp \<Rightarrow> database \<Rightarrow> sql_error + database" where
  "update_spot_from_sensor NEW now db =
     (let spots = map (\<lambda>ps. if Some (ps_id ps) = sd_sensor_id NEW
                            then ps\<lparr>ps_is_occupied := Some (sd_occupied NEW),
                                    ps_last_updated := sd_timestamp NEW\<rparr>
                            else ps)
                    (parking_spots db)
      in case sd_sensor_id NEW of
           None \<Rightarrow> Inl Not_Null_Violation
         | Some sid \<Rightarrow>
             if \<not> list_ex (\<lambda>ps. ps_id ps = sid) (parking_spots db)
             then Inl Foreign_Key_Violation
             else if list_ex (\<lambda>sh. sh_sensor_id sh = sid) (sensor_health db)
             then Inr (db\<lparr>parking_spots := spots,
                          sensor_health :=
                            map (\<lambda>sh. if sh_sensor_id sh = sid
                                      then sh\<lparr>sh_last_data_received := sd_timestamp NEW,
                                              sh_battery_level :=
                                                (case sd_battery_level NEW of
                                                   Some b \<Rightarrow> Some b
                                                 | None \<Rightarrow> sh_battery_level sh),
                                              sh_signal_strength :=
                                                (case sd_signal_strength NEW of
                                                   Some g \<Rightarrow> Some g
                                                 | None \<Rightarrow> sh_signal_strength sh),
                                              sh_updated_at := Some now\<rparr>
                                      else sh)
                              (sensor_health db)\<rparr>)
             else Inr (db\<lparr>parking_spots := spots,
                          sensor_health :=
                            sensor_health db @
                              [\<lparr>sh_sensor_id = sid,
                                sh_last_data_received = sd_timestamp NEW,
                                sh_battery_level = sd_battery_level NEW,
                                sh_signal_strength = sd_signal_strength NEW,
                                sh_updated_at = Some now\<rparr>]\<rparr>))"

text \<open>
  \<^verbatim>\<open>trigger_update_spot_from_sensor\<close>: the insertion of one row into
  \<^verbatim>\<open>sensor_data\<close> (its defaults filled in), which checks the table's constraints
  and then runs the trigger function for the row.
\<close>

definition trigger_update_spot_from_sensor ::
  "sensor_data_row \<Rightarrow> timestamp \<Rightarrow> database \<Rightarrow> sql_error + database" where
  "trigger_update_spot_from_sensor NEW now db =
     (if (case sd_battery_level NEW of None \<Rightarrow> False | Some b \<Rightarrow> \<not> (b \<ge> 0 \<and> b \<le> 100))
         \<or> (case sd_signal_strength NEW of None \<Rightarrow> False | Some g \<Rightarrow> \<not> (g \<ge> - 100 \<and> g \<le> 0))
      then Inl Check_Violation
      else if (case sd_sensor_id NEW of
                 None \<Rightarrow> False
               | Some sid \<Rightarrow> \<not> list_ex (\<lambda>ps. ps_id ps = sid) (parking_spots db))
      then Inl Foreign_Key_Violation
      else update_spot_from_sensor NEW now (db\<lparr>sensor_data := sensor_data db @ [NEW]\<rparr>))"

text \<open>
  \<^verbatim>\<open>expire_old_reservations\<close> at the time \<open>now\<close>: the row count of the first
  \<^verbatim>\<open>UPDATE\<close> and the new database. In the second \<^verbatim>\<open>UPDATE\<close> the subquery's
  \<^verbatim>\<open>is_reserved\<close> is the column of the outer \<^verbatim>\<open>parking_spots\<close> row
  (\<^verbatim>\<open>reservations\<close> has no such column).
\<close>

definition expire_old_reservations :: "timestamp \<Rightarrow> database \<Rightarrow> nat \<times> database" where
  "expire_old_reservations now db =
     (let old = (\<lambda>r. r_status r = Some Active \<and> r_end_time r < now - interval_1_hour);
          expired_count = length (filter old (reservations db));
          rs = map (\<lambda>r. if old r then r\<lparr>r_status := Some Expired\<rparr> else r) (reservations db);
          spots = map (\<lambda>ps. if list_ex (\<lambda>r. r_spot_id r = Some (ps_id ps)
                                            \<and> r_status r = Some Expired
                                            \<and> ps_is_reserved ps = Some True) rs
                            then ps\<lparr>ps_is_reserved := Some False\<rparr>
                            else ps)
                    (parking_spots db)
      in (expired_count, db\<lparr>reservations := rs, parking_spots := spots\<rparr>))"

section \<open>The sample filter as the specification words it\<close>

text \<open>
  The specification's SampleFilter, to be compared with \<open>getAverageDistance\<close>: keep the
  measurements within \<open>[MIN_DISTANCE_CM, MAX_DISTANCE_CM]\<close>, return their arithmetic
  mean, and fail (\<open>None\<close>, NoValidReading) when none is kept.
\<close>

definition spec_SampleFilter :: "real list \<Rightarrow> real option" where
  "spec_SampleFilter samples =
     (let kept = filter (\<lambda>d. real_of_int MIN_DISTANCE_CM \<le> d
                              \<and> d \<le> real_of_int MAX_DISTANCE_CM) samples
      in if kept = [] then None else Some (sum_list kept / real (length kept)))"

section \<open>Properties of the sample filter\<close>

lemma sample_loop_eq:
  "sample_loop samples (t, v) =
     (t + sum_list (filter (\<lambda>d. d > 0 \<and> d < 400) samples),
      v + int (length (filter (\<lambda>d. d > 0 \<and> d < 400) samples)))"
  by (induction samples arbitrary: t v) simp_all

lemma getAverageDistance_eq:
  "getAverageDistance samples =
     (if filter (\<lambda>d. d > 0 \<and> d < 400) samples = [] then - 1
      else sum_list (filter (\<lambda>d. d > 0 \<and> d < 400) samples)
             / real (length (filter (\<lambda>d. d > 0 \<and> d < 400) samples)))"
  by (simp add: getAverageDistance_def sample_loop_eq)

lemma sum_list_pos_real:
  fixes xs :: "real list"
  shows "xs \<noteq> [] \<Longrightarrow> \<forall>x \<in> set xs. 0 < x \<Longrightarrow> 0 < sum_list xs"
proof (induction xs)
  case Nil
  then show ?case by simp
next
  case (Cons x xs)
  show ?case
  proof (cases "xs = []")
    case True
    with Cons.prems show ?thesis by simp
  next
    case False
    with Cons have "0 < sum_list xs" by simp
    moreover from Cons.prems have "0 < x" by simp
    ultimately show ?thesis by simp
  qed
qed

text \<open>The average is negative exactly when the code's range check kept no measurement.\<close>

lemma getAverageDistance_neg_iff:
  "getAverageDistance samples < 0 \<longleftrightarrow> filter (\<lambda>d. d > 0 \<and> d < 400) samples = []"
proof (cases "filter (\<lambda>d. d > 0 \<and> d < 400) samples = []")
  case True
  then show ?thesis by (simp add: getAverageDistance_eq)
next
  case False
  let ?k = "filter (\<lambda>d. d > 0 \<and> d < 400) samples"
  have "0 < sum_list ?k"
    by (rule sum_list_pos_real [OF False]) simp
  moreover have "0 < real (length ?k)" using False by simp
  ultimately have "0 < sum_list ?k / real (length ?k)" by simp
  with False show ?thesis by (simp add: getAverageDistance_eq)
qed

text \<open>
  Claim C2. SampleFilter should return the mean of exactly the measurements within
  [2, 400] cm. \<open>getAverageDistance\<close> checks \<open>0 < d < 400\<close> instead: a pulse of 100
  microseconds measures 1.715 cm, below the minimum valid distance, and is averaged
  in. With four measurements of 171.5 cm the firmware returns 137.543 cm where the
  mean of the in-range measurements is 171.5 cm.
\<close>

theorem average_keeps_sample_below_minimum:
  "measureDistance 100 = 1.715
   \<and> getAverageDistance (map measureDistance [100, 10000, 10000, 10000, 10000]) = 137.543
   \<and> spec_SampleFilter (map measureDistance [100, 10000, 10000, 10000, 10000]) = Some 171.5"
  by (simp add: getAverageDistance_def measureDistance_def spec_SampleFilter_def
      MIN_DISTANCE_CM_def MAX_DISTANCE_CM_def)

section \<open>Properties of the debouncer\<close>

text \<open>
  Claim C8. When no measurement of the batch passes the range check,
  \<open>getAverageDistance\<close> returns the failure value and \<open>performSensorReading\<close> leaves
  the counter, the pending candidate and the published state as they were; it sends
  the error line and the error message, and no status change or sensor data.
\<close>

theorem no_valid_reading_keeps_state:
  assumes "\<forall>d \<in> set samples. \<not> (d > 0 \<and> d < 400)"
  shows "getAverageDistance samples = - 1
         \<and> performSensorReading samples s =
             ([Serial_Read_Error, Publish_Error ''sensor_read_error''], s)"
proof -
  from assms have "filter (\<lambda>d. d > 0 \<and> d < 400) samples = []"
    by (simp add: filter_empty_conv)
  then have "getAverageDistance samples = - 1"
    by (simp add: getAverageDistance_eq)
  then show ?thesis by (simp add: performSensorReading_def)
qed

theorem no_valid_reading_keeps_state_witness:
  "getAverageDistance (map measureDistance [0, 0, 0, 0, 0]) = - 1
   \<and> performSensorReading (map measureDistance [0, 0, 0, 0, 0])
        \<lparr>current_occupied = True, previous_occupied = False, consecutive_readings = 2\<rparr> =
       ([Serial_Read_Error, Publish_Error ''sensor_read_error''],
        \<lparr>current_occupied = True, previous_occupied = False, consecutive_readings = 2\<rparr>)"
  using no_valid_reading_keeps_state [of "map measureDistance [0, 0, 0, 0, 0]"
      "\<lparr>current_occupied = True, previous_occupied = False, consecutive_readings = 2\<rparr>"]
  by (simp add: measureDistance_def)

text \<open>What a call does when the averaged distance passed the error check.\<close>

lemma performSensorReading_valid:
  assumes "\<not> getAverageDistance samples < 0"
  shows "performSensorReading samples s =
    (let d = getAverageDistance samples;
         c = (d < real_of_int OCCUPIED_THRESHOLD_CM);
         k = (if c = current_occupied s then incr_int32 (consecutive_readings s) else 1)
     in (Serial_Average_Distance d #
           (if DEBOUNCE_COUNT \<le> k
            then (if c \<noteq> previous_occupied s
                  then [Serial_Status_Change (previous_occupied s) c, Led_Write c]
                  else []) @ [Publish_Sensor_Data d c]
            else []) @ [Serial_Current_Status c k DEBOUNCE_COUNT],
         \<lparr>current_occupied = c,
          previous_occupied = (if DEBOUNCE_COUNT \<le> k then c else previous_occupied s),
          consecutive_readings = k\<rparr>))"
  using assms by (cases s) (auto simp: performSensorReading_def Let_def)

lemma incr_int32_range: "- 2147483648 \<le> incr_int32 x \<and> incr_int32 x < 2147483648"
proof -
  have "0 \<le> (x + 1 + 2147483648) mod 4294967296" by simp
  moreover have "(x + 1 + 2147483648) mod 4294967296 < 4294967296" by simp
  ultimately show ?thesis unfolding incr_int32_def by linarith
qed

lemma incr_int32_le: "- 2147483648 \<le> x \<Longrightarrow> incr_int32 x \<le> x + 1"
proof -
  assume "- 2147483648 \<le> x"
  then have "0 \<le> x + 1 + 2147483648" by simp
  then have "(x + 1 + 2147483648) mod 4294967296 \<le> x + 1 + 2147483648"
    by (rule zmod_le_nonneg_dividend)
  then show ?thesis unfolding incr_int32_def by linarith
qed

lemma sensor_loop_append:
  "sensor_loop (bs @ [b]) s =
     (case sensor_loop bs s of
        (evs, s') \<Rightarrow> (case performSensorReading b s' of (ev, s'') \<Rightarrow> (evs @ ev, s'')))"
  by (induction bs arbitrary: s) (auto split: prod.splits)

lemma filtered_readings_snoc:
  "filtered_readings (bs @ [b]) =
     filtered_readings bs @ (if getAverageDistance b < 0 then [] else [getAverageDistance b])"
  by (simp add: filtered_readings_def)


text \<open>
  The counter never exceeds the number of the most recent filtered readings whose
  candidate is the pending one.
\<close>

lemma streak_snoc:
  "streak c (ds @ [d]) = (if (d < real_of_int OCCUPIED_THRESHOLD_CM) = c then Suc (streak c ds) else 0)"
  by (simp add: streak_def)

lemma counter_invariant_step:
  assumes inv: "- 2147483648 \<le> consecutive_readings s"
               "consecutive_readings s \<le> int (streak (current_occupied s) (filtered_readings bs))"
      and step: "performSensorReading b s = (ev, s')"
  shows "- 2147483648 \<le> consecutive_readings s'
         \<and> consecutive_readings s' \<le> int (streak (current_occupied s') (filtered_readings (bs @ [b])))"
proof (cases "getAverageDistance b < 0")
  case True
  with step have "s' = s" by (simp add: performSensorReading_def)
  with inv True show ?thesis by (simp add: filtered_readings_snoc)
next
  case False
  let ?c = "getAverageDistance b < real_of_int OCCUPIED_THRESHOLD_CM"
  from step False have cur: "current_occupied s' = ?c"
    and cnt: "consecutive_readings s' =
                (if ?c = current_occupied s then incr_int32 (consecutive_readings s) else 1)"
    by (auto simp: performSensorReading_valid Let_def)
  show ?thesis
  proof (cases "?c = current_occupied s")
    case True
    with cnt have "consecutive_readings s' = incr_int32 (consecutive_readings s)" by simp
    moreover have "incr_int32 (consecutive_readings s) \<le> consecutive_readings s + 1"
      using inv(1) by (rule incr_int32_le)
    moreover have "- 2147483648 \<le> incr_int32 (consecutive_readings s)"
      using incr_int32_range by blast
    moreover have "streak (current_occupied s') (filtered_readings (bs @ [b])) =
                     Suc (streak (current_occupied s) (filtered_readings bs))"
      using False True cur by (simp add: filtered_readings_snoc streak_snoc)
    ultimately show ?thesis using inv(2) by simp
  next
    case neq: False
    with cnt have "consecutive_readings s' = 1" by simp
    moreover have "streak (current_occupied s') (filtered_readings (bs @ [b])) =
                     Suc (streak ?c (filtered_readings bs))"
      using False cur by (simp add: filtered_readings_snoc streak_snoc)
    ultimately show ?thesis by simp
  qed
qed

lemma counter_invariant:
  "sensor_loop bs initial_state = (evs, s) \<Longrightarrow>
     - 2147483648 \<le> consecutive_readings s
     \<and> consecutive_readings s \<le> int (streak (current_occupied s) (filtered_readings bs))"
proof (induction bs arbitrary: evs s rule: rev_induct)
  case Nil
  then show ?case by (auto simp: initial_state_def)
next
  case (snoc b bs)
  obtain evs0 s0 where run: "sensor_loop bs initial_state = (evs0, s0)"
    by (cases "sensor_loop bs initial_state")
  obtain ev where step: "performSensorReading b s0 = (ev, s)"
    using snoc.prems run by (auto simp: sensor_loop_append split: prod.splits)
  from snoc.IH [OF run] have "- 2147483648 \<le> consecutive_readings s0"
    and "consecutive_readings s0 \<le> int (streak (current_occupied s0) (filtered_readings bs))"
    by simp_all
  then show ?case using step by (rule counter_invariant_step)
qed

lemma take_takeWhile_prefix:
  "n \<le> length (takeWhile P xs) \<Longrightarrow> x \<in> set (take n xs) \<Longrightarrow> P x"
proof -
  assume n: "n \<le> length (takeWhile P xs)" and x: "x \<in> set (take n xs)"
  have "take n xs = take n (takeWhile P xs @ dropWhile P xs)" by simp
  also have "\<dots> = take n (takeWhile P xs)"
    using n by (simp del: takeWhile_dropWhile_id)
  finally have "x \<in> set (takeWhile P xs)" using x by (auto dest: in_set_takeD)
  then show "P x" by (rule set_takeWhileD [THEN conjunct2])
qed

lemma measured_batches:
  "getAverageDistance [measureDistance 6000, measureDistance 6000, measureDistance 6000,
     measureDistance 6000, measureDistance 6000] = 102.9"
  "getAverageDistance [measureDistance 14600, measureDistance 14600, measureDistance 14600,
     measureDistance 14600, measureDistance 14600] = 250.39"
  by (simp_all add: getAverageDistance_def measureDistance_def)

text \<open>
  Claim C1. After any sequence of batches from startup, a call that reports a status
  change to \<open>n\<close> (or publishes sensor data with the state \<open>n\<close>) has seen at least
  \<open>DEBOUNCE_COUNT\<close> filtered readings, and the last \<open>DEBOUNCE_COUNT\<close> of them, the
  current one included, all have the candidate \<open>n\<close>. A filtered reading whose
  candidate differs from the pending one sets the counter to 1 and makes its candidate
  the pending one.
\<close>

theorem debounce_needs_consecutive_readings:
  assumes run: "sensor_loop batches initial_state = (evs, s)"
      and step: "performSensorReading samples s = (ev, s')"
  shows "((Serial_Status_Change p n \<in> set ev \<or> Publish_Sensor_Data x n \<in> set ev) \<longrightarrow>
            nat DEBOUNCE_COUNT \<le> length (filtered_readings (batches @ [samples]))
            \<and> (\<forall>d \<in> set (take (nat DEBOUNCE_COUNT) (rev (filtered_readings (batches @ [samples])))).
                  (d < real_of_int OCCUPIED_THRESHOLD_CM) = n))
         \<and> (\<not> getAverageDistance samples < 0
            \<and> (getAverageDistance samples < real_of_int OCCUPIED_THRESHOLD_CM) \<noteq> current_occupied s \<longrightarrow>
              consecutive_readings s' = 1
              \<and> current_occupied s' = (getAverageDistance samples < real_of_int OCCUPIED_THRESHOLD_CM))"
proof (intro conjI impI)
  assume reset: "\<not> getAverageDistance samples < 0
     \<and> (getAverageDistance samples < real_of_int OCCUPIED_THRESHOLD_CM) \<noteq> current_occupied s"
  with step show "consecutive_readings s' = 1"
    by (auto simp: performSensorReading_valid Let_def)
  from reset step
  show "current_occupied s' = (getAverageDistance samples < real_of_int OCCUPIED_THRESHOLD_CM)"
    by (auto simp: performSensorReading_valid Let_def)
next
  assume emitted: "Serial_Status_Change p n \<in> set ev \<or> Publish_Sensor_Data x n \<in> set ev"
  have valid: "\<not> getAverageDistance samples < 0"
  proof
    assume "getAverageDistance samples < 0"
    with step have "ev = [Serial_Read_Error, Publish_Error ''sensor_read_error'']"
      by (simp add: performSensorReading_def)
    with emitted show False by auto
  qed
  from valid step emitted have enough: "DEBOUNCE_COUNT \<le> consecutive_readings s'"
    and cur: "current_occupied s' = n"
    by (auto simp: performSensorReading_valid Let_def split: if_splits)
  from run step have "sensor_loop (batches @ [samples]) initial_state = (evs @ ev, s')"
    by (simp add: sensor_loop_append)
  then have "consecutive_readings s' \<le>
               int (streak (current_occupied s') (filtered_readings (batches @ [samples])))"
    using counter_invariant by blast
  with enough cur have len: "nat DEBOUNCE_COUNT \<le> streak n (filtered_readings (batches @ [samples]))"
    by (simp add: DEBOUNCE_COUNT_def)
  then have "nat DEBOUNCE_COUNT \<le> length (rev (filtered_readings (batches @ [samples])))"
    unfolding streak_def by (rule order_trans) (rule length_takeWhile_le)
  then show "nat DEBOUNCE_COUNT \<le> length (filtered_readings (batches @ [samples]))" by simp
  show "\<forall>d \<in> set (take (nat DEBOUNCE_COUNT) (rev (filtered_readings (batches @ [samples])))).
           (d < real_of_int OCCUPIED_THRESHOLD_CM) = n"
  proof
    fix d
    assume "d \<in> set (take (nat DEBOUNCE_COUNT) (rev (filtered_readings (batches @ [samples]))))"
    with len show "(d < real_of_int OCCUPIED_THRESHOLD_CM) = n"
      unfolding streak_def by (rule take_takeWhile_prefix)
  qed
qed


theorem debounce_needs_consecutive_readings_witness:
  "Serial_Status_Change False True \<in>
     set (fst (performSensorReading (map measureDistance [6000, 6000, 6000, 6000, 6000])
            \<lparr>current_occupied = True, previous_occupied = False, consecutive_readings = 2\<rparr>))
   \<and> nat DEBOUNCE_COUNT \<le>
       length (filtered_readings
         [map measureDistance [6000, 6000, 6000, 6000, 6000],
          map measureDistance [6000, 6000, 6000, 6000, 6000],
          map measureDistance [6000, 6000, 6000, 6000, 6000]])
   \<and> list_all (\<lambda>d. d < real_of_int OCCUPIED_THRESHOLD_CM)
       (take (nat DEBOUNCE_COUNT) (rev (filtered_readings
         [map measureDistance [6000, 6000, 6000, 6000, 6000],
          map measureDistance [6000, 6000, 6000, 6000, 6000],
          map measureDistance [6000, 6000, 6000, 6000, 6000]])))
   \<and> snd (performSensorReading (map measureDistance [14600, 14600, 14600, 14600, 14600])
            \<lparr>current_occupied = True, previous_occupied = False, consecutive_readings = 2\<rparr>) =
       \<lparr>current_occupied = False, previous_occupied = False, consecutive_readings = 1\<rparr>"
proof -
  let ?near = "map measureDistance [6000, 6000, 6000, 6000, 6000]"
  let ?far = "map measureDistance [14600, 14600, 14600, 14600, 14600]"
  let ?s2 = "\<lparr>current_occupied = True, previous_occupied = False, consecutive_readings = 2\<rparr>"
  let ?ev2 = "[Serial_Average_Distance 102.9, Serial_Current_Status True 1 DEBOUNCE_COUNT,
               Serial_Average_Distance 102.9, Serial_Current_Status True 2 DEBOUNCE_COUNT]"
  have run: "sensor_loop [?near, ?near] initial_state = (?ev2, ?s2)"
    by (simp add: performSensorReading_def Let_def measured_batches initial_state_def incr_int32_def
        DEBOUNCE_COUNT_def OCCUPIED_THRESHOLD_CM_def)
  have near: "performSensorReading ?near ?s2 =
      ([Serial_Average_Distance 102.9, Serial_Status_Change False True, Led_Write True,
        Publish_Sensor_Data 102.9 True, Serial_Current_Status True 3 DEBOUNCE_COUNT],
       \<lparr>current_occupied = True, previous_occupied = True, consecutive_readings = 3\<rparr>)"
    by (simp add: performSensorReading_def Let_def measured_batches incr_int32_def
        DEBOUNCE_COUNT_def OCCUPIED_THRESHOLD_CM_def)
  have far: "performSensorReading ?far ?s2 =
      ([Serial_Average_Distance 250.39, Serial_Current_Status False 1 DEBOUNCE_COUNT],
       \<lparr>current_occupied = False, previous_occupied = False, consecutive_readings = 1\<rparr>)"
    by (simp add: performSensorReading_def Let_def measured_batches incr_int32_def
        DEBOUNCE_COUNT_def OCCUPIED_THRESHOLD_CM_def)
  from debounce_needs_consecutive_readings [OF run near, of False True 0]
  have "nat DEBOUNCE_COUNT \<le> length (filtered_readings [?near, ?near, ?near])
        \<and> (\<forall>d \<in> set (take (nat DEBOUNCE_COUNT) (rev (filtered_readings [?near, ?near, ?near]))).
              d < real_of_int OCCUPIED_THRESHOLD_CM)"
    by simp
  with debounce_needs_consecutive_readings [OF run far, of False True 0]
  show ?thesis
    unfolding near far by (simp add: list_all_iff)
qed

text \<open>
  Claim C6, as the firmware has it. For every filtered reading the averaged distance
  and the line with the candidate state and the confidence counter/\<open>DEBOUNCE_COUNT\<close>
  are written to the serial console. The sensor data (that distance, and the candidate
  as its occupied value) are published exactly when the counter has reached
  \<open>DEBOUNCE_COUNT\<close>, with or without a status change, and not before.
\<close>

theorem sensor_data_published_only_when_debounced:
  assumes valid: "\<not> getAverageDistance samples < 0"
      and step: "performSensorReading samples s = (ev, s')"
  shows "Serial_Average_Distance (getAverageDistance samples) \<in> set ev
         \<and> Serial_Current_Status (getAverageDistance samples < real_of_int OCCUPIED_THRESHOLD_CM)
             (consecutive_readings s') DEBOUNCE_COUNT \<in> set ev
         \<and> ((\<exists>x occ. Publish_Sensor_Data x occ \<in> set ev) \<longleftrightarrow>
              DEBOUNCE_COUNT \<le> consecutive_readings s')
         \<and> (\<forall>x occ. Publish_Sensor_Data x occ \<in> set ev \<longrightarrow>
              x = getAverageDistance samples
              \<and> occ = (getAverageDistance samples < real_of_int OCCUPIED_THRESHOLD_CM))"
  using step unfolding performSensorReading_valid [OF valid] Let_def
  by (auto split: if_splits)

theorem sensor_data_published_only_when_debounced_witness:
  "\<not> getAverageDistance (map measureDistance [6000, 6000, 6000, 6000, 6000]) < 0
   \<and> Serial_Average_Distance 102.9 \<in>
       set (fst (performSensorReading (map measureDistance [6000, 6000, 6000, 6000, 6000])
              \<lparr>current_occupied = True, previous_occupied = True, consecutive_readings = 3\<rparr>))
   \<and> Serial_Current_Status True 4 DEBOUNCE_COUNT \<in>
       set (fst (performSensorReading (map measureDistance [6000, 6000, 6000, 6000, 6000])
              \<lparr>current_occupied = True, previous_occupied = True, consecutive_readings = 3\<rparr>))
   \<and> Publish_Sensor_Data 102.9 True \<in>
       set (fst (performSensorReading (map measureDistance [6000, 6000, 6000, 6000, 6000])
              \<lparr>current_occupied = True, previous_occupied = True, consecutive_readings = 3\<rparr>))"
proof -
  let ?near = "map measureDistance [6000, 6000, 6000, 6000, 6000]"
  let ?s3 = "\<lparr>current_occupied = True, previous_occupied = True, consecutive_readings = 3\<rparr>"
  have valid: "\<not> getAverageDistance ?near < 0" by (simp add: measured_batches)
  have step: "performSensorReading ?near ?s3 =
      ([Serial_Average_Distance 102.9, Publish_Sensor_Data 102.9 True,
        Serial_Current_Status True 4 DEBOUNCE_COUNT],
       \<lparr>current_occupied = True, previous_occupied = True, consecutive_readings = 4\<rparr>)"
    by (simp add: performSensorReading_def Let_def measured_batches incr_int32_def
        DEBOUNCE_COUNT_def OCCUPIED_THRESHOLD_CM_def)
  from sensor_data_published_only_when_debounced [OF valid step] valid
  show ?thesis
    unfolding step by (simp add: measured_batches)
qed

text \<open>
  The claim C6 as it was stated fails on the first reading after startup: the reading
  is valid, the counter is 1, and nothing is published.
\<close>

theorem sensor_data_not_published_counterexample:
  "\<not> getAverageDistance (map measureDistance [14600, 14600, 14600, 14600, 14600]) < 0
   \<and> performSensorReading (map measureDistance [14600, 14600, 14600, 14600, 14600]) initial_state =
       ([Serial_Average_Distance 250.39, Serial_Current_Status False 1 3],
        \<lparr>current_occupied = False, previous_occupied = False, consecutive_readings = 1\<rparr>)"
  by (simp add: performSensorReading_def Let_def measured_batches initial_state_def incr_int32_def
      DEBOUNCE_COUNT_def OCCUPIED_THRESHOLD_CM_def)

text \<open>A call reports at most one status change, from the published state to its negation.\<close>

lemma status_changes_append:
  "status_changes (xs @ ys) = status_changes xs @ status_changes ys"
  by (induction xs rule: status_changes.induct) simp_all

lemma status_changes_step:
  "status_changes (fst (performSensorReading b s)) =
     (if \<not> getAverageDistance b < 0
         \<and> DEBOUNCE_COUNT \<le> consecutive_readings (snd (performSensorReading b s))
         \<and> (getAverageDistance b < real_of_int OCCUPIED_THRESHOLD_CM) \<noteq> previous_occupied s
      then [(previous_occupied s, getAverageDistance b < real_of_int OCCUPIED_THRESHOLD_CM)]
      else [])"
proof (cases "getAverageDistance b < 0")
  case True
  then show ?thesis by (simp add: performSensorReading_def)
next
  case False
  then show ?thesis by (simp add: performSensorReading_valid Let_def)
qed

lemma previous_occupied_step:
  "previous_occupied (snd (performSensorReading b s)) =
     (if status_changes (fst (performSensorReading b s)) = [] then previous_occupied s
      else \<not> previous_occupied s)"
proof (cases "getAverageDistance b < 0")
  case True
  then show ?thesis by (simp add: performSensorReading_def)
next
  case False
  then show ?thesis by (auto simp: performSensorReading_valid Let_def)
qed

lemma first_change_from_free:
  "previous_occupied s0 = False \<Longrightarrow> sensor_loop bs s0 = (evs, s) \<Longrightarrow>
     (case status_changes evs of [] \<Rightarrow> True | c # _ \<Rightarrow> c = (False, True))"
proof (induction bs arbitrary: s0 evs s)
  case Nil
  then show ?case by simp
next
  case (Cons b bs)
  obtain ev s1 where step: "performSensorReading b s0 = (ev, s1)"
    by (cases "performSensorReading b s0")
  obtain evs' where rest: "sensor_loop bs s1 = (evs', s)" and evs: "evs = ev @ evs'"
    using Cons.prems(2) step by (auto split: prod.splits)
  show ?case
  proof (cases "status_changes ev = []")
    case True
    with previous_occupied_step [of b s0] step Cons.prems(1)
    have "previous_occupied s1 = False" by simp
    from Cons.IH [OF this rest] True evs show ?thesis
      by (simp add: status_changes_append)
  next
    case False
    with status_changes_step [of b s0] step Cons.prems(1)
    have "status_changes ev = [(False, True)]"
      by (auto split: if_splits)
    with evs show ?thesis by (simp add: status_changes_append)
  qed
qed

lemma filtered_readings_Cons:
  "filtered_readings (b # bs) =
     (if getAverageDistance b < 0 then [] else [getAverageDistance b]) @ filtered_readings bs"
  by (simp add: filtered_readings_def)

lemma free_readings_no_change:
  "current_occupied s0 = False \<Longrightarrow> previous_occupied s0 = False \<Longrightarrow>
   sensor_loop bs s0 = (evs, s) \<Longrightarrow>
   \<forall>d \<in> set (filtered_readings bs). \<not> d < real_of_int OCCUPIED_THRESHOLD_CM \<Longrightarrow>
   status_changes evs = []"
proof (induction bs arbitrary: s0 evs s)
  case Nil
  then show ?case by simp
next
  case (Cons b bs)
  obtain ev s1 where step: "performSensorReading b s0 = (ev, s1)"
    by (cases "performSensorReading b s0")
  obtain evs' where rest: "sensor_loop bs s1 = (evs', s)" and evs: "evs = ev @ evs'"
    using Cons.prems(3) step by (auto split: prod.splits)
  from Cons.prems(4) have tail: "\<forall>d \<in> set (filtered_readings bs). \<not> d < real_of_int OCCUPIED_THRESHOLD_CM"
    by (simp add: filtered_readings_Cons)
  from Cons.prems(4) have free: "\<not> getAverageDistance b < 0 \<Longrightarrow>
      \<not> getAverageDistance b < real_of_int OCCUPIED_THRESHOLD_CM"
    by (simp add: filtered_readings_Cons)
  from status_changes_step [of b s0] step Cons.prems(2) free
  have none: "status_changes ev = []" by (auto split: if_splits)
  with previous_occupied_step [of b s0] step Cons.prems(2)
  have prev: "previous_occupied s1 = False" by simp
  have cur: "current_occupied s1 = False"
  proof (cases "getAverageDistance b < 0")
    case True
    with step Cons.prems(1) show ?thesis by (auto simp: performSensorReading_def)
  next
    case False
    with step free show ?thesis by (auto simp: performSensorReading_valid Let_def)
  qed
  from Cons.IH [OF cur prev rest tail] none evs show ?case
    by (simp add: status_changes_append)
qed

text \<open>
  Claim C9. At startup the pending candidate and the published state are both FREE.
  For every sequence of batches from startup, the first status change reported, if
  there is one, is from FREE to OCCUPIED; and while every filtered reading has the
  candidate FREE, no status change is reported.
\<close>

theorem first_status_change_is_free_to_occupied:
  assumes "sensor_loop batches initial_state = (evs, s)"
  shows "current_occupied initial_state = False \<and> previous_occupied initial_state = False
         \<and> (case status_changes evs of [] \<Rightarrow> True | c # _ \<Rightarrow> c = (False, True))
         \<and> ((\<forall>d \<in> set (filtered_readings batches). \<not> d < real_of_int OCCUPIED_THRESHOLD_CM)
              \<longrightarrow> status_changes evs = [])"
proof (intro conjI impI)
  show "current_occupied initial_state = False" "previous_occupied initial_state = False"
    by (simp_all add: initial_state_def)
  then show "case status_changes evs of [] \<Rightarrow> True | c # _ \<Rightarrow> c = (False, True)"
    using assms first_change_from_free by blast
next
  assume "\<forall>d \<in> set (filtered_readings batches). \<not> d < real_of_int OCCUPIED_THRESHOLD_CM"
  moreover have "current_occupied initial_state = False" "previous_occupied initial_state = False"
    by (simp_all add: initial_state_def)
  ultimately show "status_changes evs = []"
    using assms free_readings_no_change by blast
qed


theorem first_status_change_is_free_to_occupied_witness:
  "status_changes (fst (sensor_loop
      [map measureDistance [6000, 6000, 6000, 6000, 6000],
       map measureDistance [6000, 6000, 6000, 6000, 6000],
       map measureDistance [6000, 6000, 6000, 6000, 6000]] initial_state)) = [(False, True)]
   \<and> list_all (\<lambda>d. \<not> d < real_of_int OCCUPIED_THRESHOLD_CM)
       (filtered_readings
         [map measureDistance [14600, 14600, 14600, 14600, 14600],
          map measureDistance [14600, 14600, 14600, 14600, 14600],
          map measureDistance [14600, 14600, 14600, 14600, 14600]])
   \<and> status_changes (fst (sensor_loop
      [map measureDistance [14600, 14600, 14600, 14600, 14600],
       map measureDistance [14600, 14600, 14600, 14600, 14600],
       map measureDistance [14600, 14600, 14600, 14600, 14600]] initial_state)) = []"
proof -
  let ?near = "map measureDistance [6000, 6000, 6000, 6000, 6000]"
  let ?far = "map measureDistance [14600, 14600, 14600, 14600, 14600]"
  have near: "sensor_loop [?near, ?near, ?near] initial_state =
      ([Serial_Average_Distance 102.9, Serial_Current_Status True 1 DEBOUNCE_COUNT,
        Serial_Average_Distance 102.9, Serial_Current_Status True 2 DEBOUNCE_COUNT,
        Serial_Average_Distance 102.9, Serial_Status_Change False True, Led_Write True,
        Publish_Sensor_Data 102.9 True, Serial_Current_Status True 3 DEBOUNCE_COUNT],
       \<lparr>current_occupied = True, previous_occupied = True, consecutive_readings = 3\<rparr>)"
    by (simp add: performSensorReading_def Let_def measured_batches initial_state_def
        incr_int32_def DEBOUNCE_COUNT_def OCCUPIED_THRESHOLD_CM_def)
  have far: "sensor_loop [?far, ?far, ?far] initial_state =
      ([Serial_Average_Distance 250.39, Serial_Current_Status False 1 DEBOUNCE_COUNT,
        Serial_Average_Distance 250.39, Serial_Current_Status False 2 DEBOUNCE_COUNT,
        Serial_Average_Distance 250.39, Publish_Sensor_Data 250.39 False,
        Serial_Current_Status False 3 DEBOUNCE_COUNT],
       \<lparr>current_occupied = False, previous_occupied = False, consecutive_readings = 3\<rparr>)"
    by (simp add: performSensorReading_def Let_def measured_batches initial_state_def
        incr_int32_def DEBOUNCE_COUNT_def OCCUPIED_THRESHOLD_CM_def)
  have free: "\<forall>d \<in> set (filtered_readings [?far, ?far, ?far]).
                \<not> d < real_of_int OCCUPIED_THRESHOLD_CM"
    by (simp add: filtered_readings_def measured_batches OCCUPIED_THRESHOLD_CM_def)
  from first_status_change_is_free_to_occupied [OF near]
    first_status_change_is_free_to_occupied [OF far] free
  show ?thesis
    unfolding near far by (simp add: list_all_iff)
qed

section \<open>Properties of the database functions\<close>

text \<open>
  Claim C4. For every combination of the three flags the status is derived with the
  precedence disabled, occupied, reserved, available, and it is always one of these
  four distinct values.
\<close>

theorem status_precedence:
  "current_parking_status
     \<lparr>ps_id = i, ps_is_occupied = Some occ, ps_is_reserved = Some res,
      ps_is_disabled = Some dis, ps_last_updated = t\<rparr> =
     (if dis then ''disabled''
      else if occ then ''occupied''
      else if res then ''reserved''
      else ''available'')
   \<and> current_parking_status ps \<in> {''disabled'', ''occupied'', ''reserved'', ''available''}
   \<and> distinct [''disabled'', ''occupied'', ''reserved'', ''available'']"
  by (simp add: current_parking_status_def)

text \<open>
  Claim C5. A run of \<open>expire_old_reservations\<close> sets to expired exactly the
  reservations that are active and whose end time plus one hour is before now; every
  other reservation (not active, or not yet older than the grace period) is left as it
  is, and the count returned is the number of reservations it expired.
\<close>

theorem expire_selects_old_active:
  assumes "expire_old_reservations now db = (expired_count, db')"
  shows "length (reservations db') = length (reservations db)
         \<and> (\<forall>i < length (reservations db).
               reservations db' ! i =
                 (if r_status (reservations db ! i) = Some Active
                     \<and> r_end_time (reservations db ! i) + interval_1_hour < now
                  then (reservations db ! i)\<lparr>r_status := Some Expired\<rparr>
                  else reservations db ! i))
         \<and> expired_count =
             length (filter (\<lambda>r. r_status r = Some Active \<and> r_end_time r + interval_1_hour < now)
                       (reservations db))"
proof -
  have old: "(\<lambda>r. r_status r = Some Active \<and> r_end_time r < now - interval_1_hour) =
             (\<lambda>r. r_status r = Some Active \<and> r_end_time r + interval_1_hour < now)"
    by (rule ext) auto
  from assms show ?thesis
    unfolding expire_old_reservations_def Let_def old by auto
qed

theorem expire_selects_old_active_witness:
  "expire_old_reservations 14400000000
     \<lparr>parking_spots = [],
      sensor_data = [],
      reservations =
        [\<lparr>r_id = ''RES_001'', r_spot_id = Some ''PARK_002'', r_start_time = 0,
          r_end_time = 3600000000, r_status = Some Active\<rparr>,
         \<lparr>r_id = ''RES_002'', r_spot_id = Some ''PARK_004'', r_start_time = 10800000000,
          r_end_time = 21600000000, r_status = Some Active\<rparr>,
         \<lparr>r_id = ''RES_003'', r_spot_id = Some ''PARK_004'', r_start_time = 0,
          r_end_time = 3600000000, r_status = Some Cancelled\<rparr>],
      sensor_health = []\<rparr> =
   (1,
    \<lparr>parking_spots = [],
      sensor_data = [],
      reservations =
        [\<lparr>r_id = ''RES_001'', r_spot_id = Some ''PARK_002'', r_start_time = 0,
          r_end_time = 3600000000, r_status = Some Expired\<rparr>,
         \<lparr>r_id = ''RES_002'', r_spot_id = Some ''PARK_004'', r_start_time = 10800000000,
          r_end_time = 21600000000, r_status = Some Active\<rparr>,
         \<lparr>r_id = ''RES_003'', r_spot_id = Some ''PARK_004'', r_start_time = 0,
          r_end_time = 3600000000, r_status = Some Cancelled\<rparr>],
      sensor_health = []\<rparr>)"
proof -
  let ?db = "\<lparr>parking_spots = [],
      sensor_data = [],
      reservations =
        [\<lparr>r_id = ''RES_001'', r_spot_id = Some ''PARK_002'', r_start_time = 0,
          r_end_time = 3600000000, r_status = Some Active\<rparr>,
         \<lparr>r_id = ''RES_002'', r_spot_id = Some ''PARK_004'', r_start_time = 10800000000,
          r_end_time = 21600000000, r_status = Some Active\<rparr>,
         \<lparr>r_id = ''RES_003'', r_spot_id = Some ''PARK_004'', r_start_time = 0,
          r_end_time = 3600000000, r_status = Some Cancelled\<rparr>],
      sensor_health = []\<rparr>"
  have run: "expire_old_reservations 14400000000 ?db =
               (fst (expire_old_reservations 14400000000 ?db),
                snd (expire_old_reservations 14400000000 ?db))"
    by simp
  from expire_selects_old_active [OF run]
  show ?thesis
    by (simp add: expire_old_reservations_def interval_1_hour_def)
qed

text \<open>
  Claim C3, as the function has it. A run clears the reserved flag of a spot exactly
  when the flag is set and some reservation of the spot has the status expired after
  the run's first update (expired by this run or before it). Other reservations of the
  spot are not looked at; every other spot is left as it is.
\<close>

theorem expire_clears_reserved_of_expired_spots:
  assumes "expire_old_reservations now db = (expired_count, db')"
  shows "length (parking_spots db') = length (parking_spots db)
         \<and> (\<forall>i < length (parking_spots db).
               parking_spots db' ! i =
                 (if ps_is_reserved (parking_spots db ! i) = Some True
                     \<and> (\<exists>r \<in> set (reservations db).
                           r_spot_id r = Some (ps_id (parking_spots db ! i))
                           \<and> (r_status r = Some Expired
                              \<or> r_status r = Some Active \<and> r_end_time r + interval_1_hour < now))
                  then (parking_spots db ! i)\<lparr>ps_is_reserved := Some False\<rparr>
                  else parking_spots db ! i))"
proof -
  let ?old = "\<lambda>r. r_status r = Some Active \<and> r_end_time r < now - interval_1_hour"
  let ?rs = "map (\<lambda>r. if ?old r then r\<lparr>r_status := Some Expired\<rparr> else r) (reservations db)"
  have ex: "list_ex (\<lambda>r. r_spot_id r = Some (ps_id ps) \<and> r_status r = Some Expired
                          \<and> ps_is_reserved ps = Some True) ?rs
            \<longleftrightarrow> ps_is_reserved ps = Some True
                \<and> (\<exists>r \<in> set (reservations db).
                      r_spot_id r = Some (ps_id ps)
                      \<and> (r_status r = Some Expired
                         \<or> r_status r = Some Active \<and> r_end_time r + interval_1_hour < now))"
    for ps
  proof -
    have old: "?old r \<longleftrightarrow> r_status r = Some Active \<and> r_end_time r + interval_1_hour < now"
      for r by auto
    show ?thesis
      by (simp only: list_ex_iff set_map bex_simps old) (auto split: if_splits)
  qed
  from assms have "parking_spots db' =
      map (\<lambda>ps. if list_ex (\<lambda>r. r_spot_id r = Some (ps_id ps) \<and> r_status r = Some Expired
                                  \<and> ps_is_reserved ps = Some True) ?rs
                then ps\<lparr>ps_is_reserved := Some False\<rparr> else ps) (parking_spots db)"
    by (auto simp: expire_old_reservations_def Let_def)
  then show ?thesis
    by (simp add: ex)
qed

theorem expire_clears_reserved_of_expired_spots_witness:
  "map ps_is_reserved (parking_spots (snd (expire_old_reservations 14400000000
     \<lparr>parking_spots =
        [\<lparr>ps_id = ''PARK_002'', ps_is_occupied = Some False, ps_is_reserved = Some True,
          ps_is_disabled = Some False, ps_last_updated = None\<rparr>,
         \<lparr>ps_id = ''PARK_004'', ps_is_occupied = Some False, ps_is_reserved = Some True,
          ps_is_disabled = Some False, ps_last_updated = None\<rparr>],
      sensor_data = [],
      reservations =
        [\<lparr>r_id = ''RES_001'', r_spot_id = Some ''PARK_002'', r_start_time = 0,
          r_end_time = 3600000000, r_status = Some Active\<rparr>,
         \<lparr>r_id = ''RES_002'', r_spot_id = Some ''PARK_004'', r_start_time = 10800000000,
          r_end_time = 21600000000, r_status = Some Active\<rparr>],
      sensor_health = []\<rparr>))) = [Some False, Some True]"
proof -
  let ?db = "\<lparr>parking_spots =
        [\<lparr>ps_id = ''PARK_002'', ps_is_occupied = Some False, ps_is_reserved = Some True,
          ps_is_disabled = Some False, ps_last_updated = None\<rparr>,
         \<lparr>ps_id = ''PARK_004'', ps_is_occupied = Some False, ps_is_reserved = Some True,
          ps_is_disabled = Some False, ps_last_updated = None\<rparr>],
      sensor_data = [],
      reservations =
        [\<lparr>r_id = ''RES_001'', r_spot_id = Some ''PARK_002'', r_start_time = 0,
          r_end_time = 3600000000, r_status = Some Active\<rparr>,
         \<lparr>r_id = ''RES_002'', r_spot_id = Some ''PARK_004'', r_start_time = 10800000000,
          r_end_time = 21600000000, r_status = Some Active\<rparr>],
      sensor_health = []\<rparr>"
  have run: "expire_old_reservations 14400000000 ?db =
               (fst (expire_old_reservations 14400000000 ?db),
                snd (expire_old_reservations 14400000000 ?db))"
    by simp
  from expire_clears_reserved_of_expired_spots [OF run]
  show ?thesis
    by (simp add: expire_old_reservations_def interval_1_hour_def)
qed

text \<open>
  The claim C3 as it was stated fails: a spot with one reservation that the run
  expires and another active reservation that covers now (it is in the view
  \<open>active_reservations\<close> after the run) loses its reserved flag.
\<close>

theorem expire_clears_reserved_despite_active_counterexample:
  "expire_old_reservations 14400000000
     \<lparr>parking_spots =
        [\<lparr>ps_id = ''PARK_002'', ps_is_occupied = Some False, ps_is_reserved = Some True,
          ps_is_disabled = Some False, ps_last_updated = None\<rparr>],
      sensor_data = [],
      reservations =
        [\<lparr>r_id = ''RES_001'', r_spot_id = Some ''PARK_002'', r_start_time = 0,
          r_end_time = 3600000000, r_status = Some Active\<rparr>,
         \<lparr>r_id = ''RES_002'', r_spot_id = Some ''PARK_002'', r_start_time = 10800000000,
          r_end_time = 21600000000, r_status = Some Active\<rparr>],
      sensor_health = []\<rparr> =
   (1,
    \<lparr>parking_spots =
        [\<lparr>ps_id = ''PARK_002'', ps_is_occupied = Some False, ps_is_reserved = Some False,
          ps_is_disabled = Some False, ps_last_updated = None\<rparr>],
      sensor_data = [],
      reservations =
        [\<lparr>r_id = ''RES_001'', r_spot_id = Some ''PARK_002'', r_start_time = 0,
          r_end_time = 3600000000, r_status = Some Expired\<rparr>,
         \<lparr>r_id = ''RES_002'', r_spot_id = Some ''PARK_002'', r_start_time = 10800000000,
          r_end_time = 21600000000, r_status = Some Active\<rparr>],
      sensor_health = []\<rparr>)
   \<and> map r_id (active_reservations 14400000000
         (snd (expire_old_reservations 14400000000
           \<lparr>parking_spots =
              [\<lparr>ps_id = ''PARK_002'', ps_is_occupied = Some False, ps_is_reserved = Some True,
                ps_is_disabled = Some False, ps_last_updated = None\<rparr>],
            sensor_data = [],
            reservations =
              [\<lparr>r_id = ''RES_001'', r_spot_id = Some ''PARK_002'', r_start_time = 0,
                r_end_time = 3600000000, r_status = Some Active\<rparr>,
               \<lparr>r_id = ''RES_002'', r_spot_id = Some ''PARK_002'', r_start_time = 10800000000,
                r_end_time = 21600000000, r_status = Some Active\<rparr>],
            sensor_health = []\<rparr>))) = [''RES_002'']"
  by (simp add: expire_old_reservations_def active_reservations_def interval_1_hour_def)

text \<open>What a successful run of the trigger function did.\<close>

lemma update_spot_from_sensor_Inr:
  assumes "update_spot_from_sensor NEW now db = Inr db'"
  shows "\<exists>sid. sd_sensor_id NEW = Some sid
           \<and> list_ex (\<lambda>ps. ps_id ps = sid) (parking_spots db)
           \<and> parking_spots db' =
               map (\<lambda>ps. if Some (ps_id ps) = sd_sensor_id NEW
                         then ps\<lparr>ps_is_occupied := Some (sd_occupied NEW),
                                 ps_last_updated := sd_timestamp NEW\<rparr>
                         else ps) (parking_spots db)
           \<and> sensor_health db' =
               (if list_ex (\<lambda>sh. sh_sensor_id sh = sid) (sensor_health db)
                then map (\<lambda>sh. if sh_sensor_id sh = sid
                               then sh\<lparr>sh_last_data_received := sd_timestamp NEW,
                                       sh_battery_level :=
                                         (case sd_battery_level NEW of
                                            Some b \<Rightarrow> Some b | None \<Rightarrow> sh_battery_level sh),
                                       sh_signal_strength :=
                                         (case sd_signal_strength NEW of
                                            Some g \<Rightarrow> Some g | None \<Rightarrow> sh_signal_strength sh),
                                       sh_updated_at := Some now\<rparr>
                               else sh) (sensor_health db)
                else sensor_health db @
                       [\<lparr>sh_sensor_id = sid,
                         sh_last_data_received = sd_timestamp NEW,
                         sh_battery_level = sd_battery_level NEW,
                         sh_signal_strength = sd_signal_strength NEW,
                         sh_updated_at = Some now\<rparr>])"
proof (cases "sd_sensor_id NEW")
  case None
  with assms show ?thesis by (simp add: update_spot_from_sensor_def)
next
  case (Some sid)
  show ?thesis
  proof (cases "list_ex (\<lambda>ps. ps_id ps = sid) (parking_spots db)")
    case False
    with assms Some show ?thesis by (simp add: update_spot_from_sensor_def)
  next
    case spot: True
    show ?thesis
    proof (cases "list_ex (\<lambda>sh. sh_sensor_id sh = sid) (sensor_health db)")
      case True
      with assms Some spot have "db' = db\<lparr>parking_spots :=
               map (\<lambda>ps. if Some (ps_id ps) = sd_sensor_id NEW
                         then ps\<lparr>ps_is_occupied := Some (sd_occupied NEW),
                                 ps_last_updated := sd_timestamp NEW\<rparr>
                         else ps) (parking_spots db),
            sensor_health :=
               map (\<lambda>sh. if sh_sensor_id sh = sid
                               then sh\<lparr>sh_last_data_received := sd_timestamp NEW,
                                       sh_battery_level :=
                                         (case sd_battery_level NEW of
                                            Some b \<Rightarrow> Some b | None \<Rightarrow> sh_battery_level sh),
                                       sh_signal_strength :=
                                         (case sd_signal_strength NEW of
                                            Some g \<Rightarrow> Some g | None \<Rightarrow> sh_signal_strength sh),
                                       sh_updated_at := Some now\<rparr>
                               else sh) (sensor_health db)\<rparr>"
        by (simp add: update_spot_from_sensor_def)
      with Some spot True show ?thesis by simp
    next
      case False
      with assms Some spot have "db' = db\<lparr>parking_spots :=
               map (\<lambda>ps. if Some (ps_id ps) = sd_sensor_id NEW
                         then ps\<lparr>ps_is_occupied := Some (sd_occupied NEW),
                                 ps_last_updated := sd_timestamp NEW\<rparr>
                         else ps) (parking_spots db),
            sensor_health := sensor_health db @
                       [\<lparr>sh_sensor_id = sid,
                         sh_last_data_received = sd_timestamp NEW,
                         sh_battery_level = sd_battery_level NEW,
                         sh_signal_strength = sd_signal_strength NEW,
                         sh_updated_at = Some now\<rparr>]\<rparr>"
        by (simp add: update_spot_from_sensor_def)
      with Some spot False show ?thesis by simp
    qed
  qed
qed

lemma trigger_update_spot_from_sensor_Inr:
  assumes "trigger_update_spot_from_sensor NEW now db = Inr db'"
  shows "update_spot_from_sensor NEW now (db\<lparr>sensor_data := sensor_data db @ [NEW]\<rparr>) = Inr db'"
  using assms by (simp add: trigger_update_spot_from_sensor_def split: if_splits)

text \<open>
  Claim C7, as the trigger has it. For every inserted reading, with or without a
  distance, the spot whose id is the reading's sensor id (there is one) gets the
  reading's occupied value as it is and the reading's timestamp; the distance is not
  read and every other spot is left as it is.
\<close>

theorem ingest_copies_occupied_verbatim:
  assumes "trigger_update_spot_from_sensor NEW now db = Inr db'"
  shows "length (parking_spots db') = length (parking_spots db)
         \<and> (\<forall>i < length (parking_spots db).
               parking_spots db' ! i =
                 (if Some (ps_id (parking_spots db ! i)) = sd_sensor_id NEW
                  then (parking_spots db ! i)\<lparr>ps_is_occupied := Some (sd_occupied NEW),
                                               ps_last_updated := sd_timestamp NEW\<rparr>
                  else parking_spots db ! i))
         \<and> (\<exists>ps \<in> set (parking_spots db). Some (ps_id ps) = sd_sensor_id NEW)"
proof -
  from update_spot_from_sensor_Inr [OF trigger_update_spot_from_sensor_Inr [OF assms]]
  obtain sid where sid: "sd_sensor_id NEW = Some sid"
    and ex: "list_ex (\<lambda>ps. ps_id ps = sid) (parking_spots db)"
    and spots: "parking_spots db' =
               map (\<lambda>ps. if Some (ps_id ps) = sd_sensor_id NEW
                         then ps\<lparr>ps_is_occupied := Some (sd_occupied NEW),
                                 ps_last_updated := sd_timestamp NEW\<rparr>
                         else ps) (parking_spots db)"
    by auto
  from ex sid have "\<exists>ps \<in> set (parking_spots db). Some (ps_id ps) = sd_sensor_id NEW"
    by (auto simp: list_ex_iff)
  with spots show ?thesis by simp
qed

theorem ingest_copies_occupied_verbatim_witness:
  "trigger_update_spot_from_sensor
     \<lparr>sd_sensor_id = Some ''PARK_004'', sd_timestamp = Some 30000000, sd_occupied = False,
      sd_distance_cm = Some 195.8, sd_battery_level = Some 95, sd_signal_strength = Some (- 35)\<rparr>
     60000000
     \<lparr>parking_spots =
        [\<lparr>ps_id = ''PARK_004'', ps_is_occupied = Some True, ps_is_reserved = Some False,
          ps_is_disabled = Some False, ps_last_updated = Some 0\<rparr>],
      sensor_data = [], reservations = [], sensor_health = []\<rparr> =
   Inr \<lparr>parking_spots =
        [\<lparr>ps_id = ''PARK_004'', ps_is_occupied = Some False, ps_is_reserved = Some False,
          ps_is_disabled = Some False, ps_last_updated = Some 30000000\<rparr>],
      sensor_data =
        [\<lparr>sd_sensor_id = Some ''PARK_004'', sd_timestamp = Some 30000000, sd_occupied = False,
          sd_distance_cm = Some 195.8, sd_battery_level = Some 95,
          sd_signal_strength = Some (- 35)\<rparr>],
      reservations = [],
      sensor_health =
        [\<lparr>sh_sensor_id = ''PARK_004'', sh_last_data_received = Some 30000000,
          sh_battery_level = Some 95, sh_signal_strength = Some (- 35),
          sh_updated_at = Some 60000000\<rparr>]\<rparr>"
proof -
  have run: "trigger_update_spot_from_sensor
     \<lparr>sd_sensor_id = Some ''PARK_004'', sd_timestamp = Some 30000000, sd_occupied = False,
      sd_distance_cm = Some 195.8, sd_battery_level = Some 95, sd_signal_strength = Some (- 35)\<rparr>
     60000000
     \<lparr>parking_spots =
        [\<lparr>ps_id = ''PARK_004'', ps_is_occupied = Some True, ps_is_reserved = Some False,
          ps_is_disabled = Some False, ps_last_updated = Some 0\<rparr>],
      sensor_data = [], reservations = [], sensor_health = []\<rparr> =
   Inr \<lparr>parking_spots =
        [\<lparr>ps_id = ''PARK_004'', ps_is_occupied = Some False, ps_is_reserved = Some False,
          ps_is_disabled = Some False, ps_last_updated = Some 30000000\<rparr>],
      sensor_data =
        [\<lparr>sd_sensor_id = Some ''PARK_004'', sd_timestamp = Some 30000000, sd_occupied = False,
          sd_distance_cm = Some 195.8, sd_battery_level = Some 95,
          sd_signal_strength = Some (- 35)\<rparr>],
      reservations = [],
      sensor_health =
        [\<lparr>sh_sensor_id = ''PARK_004'', sh_last_data_received = Some 30000000,
          sh_battery_level = Some 95, sh_signal_strength = Some (- 35),
          sh_updated_at = Some 60000000\<rparr>]\<rparr>"
    by (simp add: trigger_update_spot_from_sensor_def update_spot_from_sensor_def)
  from ingest_copies_occupied_verbatim [OF run] run show ?thesis by simp
qed

text \<open>
  The claim C7 as it was stated fails: a reading with the distance 250.5 cm, which is
  not below the threshold, and the occupied value true turns a free spot occupied.
\<close>

theorem occupied_not_recomputed_counterexample:
  "trigger_update_spot_from_sensor
     \<lparr>sd_sensor_id = Some ''PARK_001'', sd_timestamp = Some 30000000, sd_occupied = True,
      sd_distance_cm = Some 250.5, sd_battery_level = Some 85, sd_signal_strength = Some (- 45)\<rparr>
     60000000
     \<lparr>parking_spots =
        [\<lparr>ps_id = ''PARK_001'', ps_is_occupied = Some False, ps_is_reserved = Some False,
          ps_is_disabled = Some False, ps_last_updated = Some 0\<rparr>],
      sensor_data = [], reservations = [], sensor_health = []\<rparr> =
   Inr \<lparr>parking_spots =
        [\<lparr>ps_id = ''PARK_001'', ps_is_occupied = Some True, ps_is_reserved = Some False,
          ps_is_disabled = Some False, ps_last_updated = Some 30000000\<rparr>],
      sensor_data =
        [\<lparr>sd_sensor_id = Some ''PARK_001'', sd_timestamp = Some 30000000, sd_occupied = True,
          sd_distance_cm = Some 250.5, sd_battery_level = Some 85,
          sd_signal_strength = Some (- 45)\<rparr>],
      reservations = [],
      sensor_health =
        [\<lparr>sh_sensor_id = ''PARK_001'', sh_last_data_received = Some 30000000,
          sh_battery_level = Some 85, sh_signal_strength = Some (- 45),
          sh_updated_at = Some 60000000\<rparr>]\<rparr>
   \<and> \<not> (250.5 :: real) < real_of_int OCCUPIED_THRESHOLD_CM"
  by (simp add: trigger_update_spot_from_sensor_def update_spot_from_sensor_def
      OCCUPIED_THRESHOLD_CM_def)

text \<open>
  Claim C10. After every inserted reading the health rows already present keep their
  sensor ids; the row of the reading's sensor takes the reading's battery level and
  signal strength where they are not null and keeps its own where they are, so a
  value that was not null is never replaced by null; every other row is unchanged.
  The sensor has a row afterwards, and its last data time is the reading's timestamp.
\<close>

theorem sensor_health_upsert_keeps_values:
  assumes "trigger_update_spot_from_sensor NEW now db = Inr db'"
  shows "length (sensor_health db) \<le> length (sensor_health db')
         \<and> (\<forall>i < length (sensor_health db).
               sh_sensor_id (sensor_health db' ! i) = sh_sensor_id (sensor_health db ! i)
               \<and> (if Some (sh_sensor_id (sensor_health db ! i)) = sd_sensor_id NEW
                  then sh_battery_level (sensor_health db' ! i) =
                         (case sd_battery_level NEW of
                            None \<Rightarrow> sh_battery_level (sensor_health db ! i)
                          | Some b \<Rightarrow> Some b)
                       \<and> sh_signal_strength (sensor_health db' ! i) =
                         (case sd_signal_strength NEW of
                            None \<Rightarrow> sh_signal_strength (sensor_health db ! i)
                          | Some g \<Rightarrow> Some g)
                       \<and> (sh_battery_level (sensor_health db ! i) \<noteq> None
                            \<longrightarrow> sh_battery_level (sensor_health db' ! i) \<noteq> None)
                       \<and> (sh_signal_strength (sensor_health db ! i) \<noteq> None
                            \<longrightarrow> sh_signal_strength (sensor_health db' ! i) \<noteq> None)
                  else sensor_health db' ! i = sensor_health db ! i))
         \<and> (\<exists>sh \<in> set (sensor_health db'). Some (sh_sensor_id sh) = sd_sensor_id NEW)
         \<and> (\<forall>sh \<in> set (sensor_health db'). Some (sh_sensor_id sh) = sd_sensor_id NEW
               \<longrightarrow> sh_last_data_received sh = sd_timestamp NEW)"
proof -
  from update_spot_from_sensor_Inr [OF trigger_update_spot_from_sensor_Inr [OF assms]]
  obtain sid where sid: "sd_sensor_id NEW = Some sid"
    and health: "sensor_health db' =
               (if list_ex (\<lambda>sh. sh_sensor_id sh = sid) (sensor_health db)
                then map (\<lambda>sh. if sh_sensor_id sh = sid
                               then sh\<lparr>sh_last_data_received := sd_timestamp NEW,
                                       sh_battery_level :=
                                         (case sd_battery_level NEW of
                                            Some b \<Rightarrow> Some b | None \<Rightarrow> sh_battery_level sh),
                                       sh_signal_strength :=
                                         (case sd_signal_strength NEW of
                                            Some g \<Rightarrow> Some g | None \<Rightarrow> sh_signal_strength sh),
                                       sh_updated_at := Some now\<rparr>
                               else sh) (sensor_health db)
                else sensor_health db @
                       [\<lparr>sh_sensor_id = sid,
                         sh_last_data_received = sd_timestamp NEW,
                         sh_battery_level = sd_battery_level NEW,
                         sh_signal_strength = sd_signal_strength NEW,
                         sh_updated_at = Some now\<rparr>])"
    by auto
  define upd :: "sensor_health_row \<Rightarrow> sensor_health_row"
    where "upd = (\<lambda>sh. if sh_sensor_id sh = sid
                               then sh\<lparr>sh_last_data_received := sd_timestamp NEW,
                                       sh_battery_level :=
                                         (case sd_battery_level NEW of
                                            Some b \<Rightarrow> Some b | None \<Rightarrow> sh_battery_level sh),
                                       sh_signal_strength :=
                                         (case sd_signal_strength NEW of
                                            Some g \<Rightarrow> Some g | None \<Rightarrow> sh_signal_strength sh),
                                       sh_updated_at := Some now\<rparr>
                               else sh)"
  have upd_id: "sh_sensor_id (upd sh) = sh_sensor_id sh" for sh
    by (simp add: upd_def)
  have upd_other: "sh_sensor_id sh \<noteq> sid \<Longrightarrow> upd sh = sh" for sh
    by (simp add: upd_def)
  have upd_same: "sh_sensor_id sh = sid \<Longrightarrow>
      sh_last_data_received (upd sh) = sd_timestamp NEW
      \<and> sh_battery_level (upd sh) =
          (case sd_battery_level NEW of None \<Rightarrow> sh_battery_level sh | Some b \<Rightarrow> Some b)
      \<and> sh_signal_strength (upd sh) =
          (case sd_signal_strength NEW of None \<Rightarrow> sh_signal_strength sh | Some g \<Rightarrow> Some g)
      \<and> (sh_battery_level sh \<noteq> None \<longrightarrow> sh_battery_level (upd sh) \<noteq> None)
      \<and> (sh_signal_strength sh \<noteq> None \<longrightarrow> sh_signal_strength (upd sh) \<noteq> None)" for sh
    by (simp add: upd_def split: option.splits)
  show ?thesis
  proof (cases "list_ex (\<lambda>sh. sh_sensor_id sh = sid) (sensor_health db)")
    case True
    with health have h: "sensor_health db' = map upd (sensor_health db)"
      by (simp add: upd_def)
    from True obtain sh0 where sh0: "sh0 \<in> set (sensor_health db)" "sh_sensor_id sh0 = sid"
      by (auto simp: list_ex_iff)
    have one: "\<exists>sh \<in> set (sensor_health db'). Some (sh_sensor_id sh) = sd_sensor_id NEW"
    proof
      show "upd sh0 \<in> set (sensor_health db')" using sh0(1) h by simp
      show "Some (sh_sensor_id (upd sh0)) = sd_sensor_id NEW"
        using sh0(2) sid by (simp add: upd_id)
    qed
    have all: "\<forall>sh \<in> set (sensor_health db'). Some (sh_sensor_id sh) = sd_sensor_id NEW
                 \<longrightarrow> sh_last_data_received sh = sd_timestamp NEW"
    proof (intro ballI impI)
      fix sh
      assume "sh \<in> set (sensor_health db')" and eq: "Some (sh_sensor_id sh) = sd_sensor_id NEW"
      then obtain sh1 where "sh = upd sh1" using h by auto
      with eq sid upd_same [of sh1] show "sh_last_data_received sh = sd_timestamp NEW"
        by (simp add: upd_id)
    qed
    have rows: "\<forall>i < length (sensor_health db).
               sh_sensor_id (sensor_health db' ! i) = sh_sensor_id (sensor_health db ! i)
               \<and> (if Some (sh_sensor_id (sensor_health db ! i)) = sd_sensor_id NEW
                  then sh_battery_level (sensor_health db' ! i) =
                         (case sd_battery_level NEW of
                            None \<Rightarrow> sh_battery_level (sensor_health db ! i)
                          | Some b \<Rightarrow> Some b)
                       \<and> sh_signal_strength (sensor_health db' ! i) =
                         (case sd_signal_strength NEW of
                            None \<Rightarrow> sh_signal_strength (sensor_health db ! i)
                          | Some g \<Rightarrow> Some g)
                       \<and> (sh_battery_level (sensor_health db ! i) \<noteq> None
                            \<longrightarrow> sh_battery_level (sensor_health db' ! i) \<noteq> None)
                       \<and> (sh_signal_strength (sensor_health db ! i) \<noteq> None
                            \<longrightarrow> sh_signal_strength (sensor_health db' ! i) \<noteq> None)
                  else sensor_health db' ! i = sensor_health db ! i)"
    proof (intro allI impI)
      fix i
      assume "i < length (sensor_health db)"
      then have nth: "sensor_health db' ! i = upd (sensor_health db ! i)"
        by (simp add: h)
      show "sh_sensor_id (sensor_health db' ! i) = sh_sensor_id (sensor_health db ! i)
               \<and> (if Some (sh_sensor_id (sensor_health db ! i)) = sd_sensor_id NEW
                  then sh_battery_level (sensor_health db' ! i) =
                         (case sd_battery_level NEW of
                            None \<Rightarrow> sh_battery_level (sensor_health db ! i)
                          | Some b \<Rightarrow> Some b)
                       \<and> sh_signal_strength (sensor_health db' ! i) =
                         (case sd_signal_strength NEW of
                            None \<Rightarrow> sh_signal_strength (sensor_health db ! i)
                          | Some g \<Rightarrow> Some g)
                       \<and> (sh_battery_level (sensor_health db ! i) \<noteq> None
                            \<longrightarrow> sh_battery_level (sensor_health db' ! i) \<noteq> None)
                       \<and> (sh_signal_strength (sensor_health db ! i) \<noteq> None
                            \<longrightarrow> sh_signal_strength (sensor_health db' ! i) \<noteq> None)
                  else sensor_health db' ! i = sensor_health db ! i)"
      proof (cases "sh_sensor_id (sensor_health db ! i) = sid")
        case True
        with upd_same [of "sensor_health db ! i"] show ?thesis
          unfolding nth by (auto simp: sid upd_id split: option.splits)
      next
        case False
        with upd_other [of "sensor_health db ! i"] show ?thesis
          unfolding nth by (simp add: sid)
      qed
    qed
    from h have len: "length (sensor_health db) \<le> length (sensor_health db')" by simp
    show ?thesis by (intro conjI len rows one all)
  next
    case False
    then have none: "\<forall>sh \<in> set (sensor_health db). sh_sensor_id sh \<noteq> sid"
      by (simp add: list_ex_iff)
    from False health have h: "sensor_health db' = sensor_health db @
                       [\<lparr>sh_sensor_id = sid,
                         sh_last_data_received = sd_timestamp NEW,
                         sh_battery_level = sd_battery_level NEW,
                         sh_signal_strength = sd_signal_strength NEW,
                         sh_updated_at = Some now\<rparr>]"
      by simp
    have one: "\<exists>sh \<in> set (sensor_health db'). Some (sh_sensor_id sh) = sd_sensor_id NEW"
      by (simp add: h sid)
    have all: "\<forall>sh \<in> set (sensor_health db'). Some (sh_sensor_id sh) = sd_sensor_id NEW
                 \<longrightarrow> sh_last_data_received sh = sd_timestamp NEW"
      using none by (auto simp: h sid)
    have rows: "\<forall>i < length (sensor_health db).
               sh_sensor_id (sensor_health db' ! i) = sh_sensor_id (sensor_health db ! i)
               \<and> (if Some (sh_sensor_id (sensor_health db ! i)) = sd_sensor_id NEW
                  then sh_battery_level (sensor_health db' ! i) =
                         (case sd_battery_level NEW of
                            None \<Rightarrow> sh_battery_level (sensor_health db ! i)
                          | Some b \<Rightarrow> Some b)
                       \<and> sh_signal_strength (sensor_health db' ! i) =
                         (case sd_signal_strength NEW of
                            None \<Rightarrow> sh_signal_strength (sensor_health db ! i)
                          | Some g \<Rightarrow> Some g)
                       \<and> (sh_battery_level (sensor_health db ! i) \<noteq> None
                            \<longrightarrow> sh_battery_level (sensor_health db' ! i) \<noteq> None)
                       \<and> (sh_signal_strength (sensor_health db ! i) \<noteq> None
                            \<longrightarrow> sh_signal_strength (sensor_health db' ! i) \<noteq> None)
                  else sensor_health db' ! i = sensor_health db ! i)"
      using none by (simp add: h sid nth_append)
    from h have len: "length (sensor_health db) \<le> length (sensor_health db')" by simp
    show ?thesis by (intro conjI len rows one all)
  qed
qed

theorem sensor_health_upsert_keeps_values_witness:
  "trigger_update_spot_from_sensor
     \<lparr>sd_sensor_id = Some ''PARK_001'', sd_timestamp = Some 30000000, sd_occupied = False,
      sd_distance_cm = Some 250.5, sd_battery_level = None, sd_signal_strength = None\<rparr>
     60000000
     \<lparr>parking_spots =
        [\<lparr>ps_id = ''PARK_001'', ps_is_occupied = Some False, ps_is_reserved = Some False,
          ps_is_disabled = Some False, ps_last_updated = Some 0\<rparr>],
      sensor_data = [], reservations = [],
      sensor_health =
        [\<lparr>sh_sensor_id = ''PARK_001'', sh_last_data_received = Some 0,
          sh_battery_level = Some 85, sh_signal_strength = Some (- 45),
          sh_updated_at = Some 0\<rparr>]\<rparr> =
   Inr \<lparr>parking_spots =
        [\<lparr>ps_id = ''PARK_001'', ps_is_occupied = Some False, ps_is_reserved = Some False,
          ps_is_disabled = Some False, ps_last_updated = Some 30000000\<rparr>],
      sensor_data =
        [\<lparr>sd_sensor_id = Some ''PARK_001'', sd_timestamp = Some 30000000, sd_occupied = False,
          sd_distance_cm = Some 250.5, sd_battery_level = None, sd_signal_strength = None\<rparr>],
      reservations = [],
      sensor_health =
        [\<lparr>sh_sensor_id = ''PARK_001'', sh_last_data_received = Some 30000000,
          sh_battery_level = Some 85, sh_signal_strength = Some (- 45),
          sh_updated_at = Some 60000000\<rparr>]\<rparr>"
proof -
  have run: "trigger_update_spot_from_sensor
     \<lparr>sd_sensor_id = Some ''PARK_001'', sd_timestamp = Some 30000000, sd_occupied = False,
      sd_distance_cm = Some 250.5, sd_battery_level = None, sd_signal_strength = None\<rparr>
     60000000
     \<lparr>parking_spots =
        [\<lparr>ps_id = ''PARK_001'', ps_is_occupied = Some False, ps_is_reserved = Some False,
          ps_is_disabled = Some False, ps_last_updated = Some 0\<rparr>],
      sensor_data = [], reservations = [],
      sensor_health =
        [\<lparr>sh_sensor_id = ''PARK_001'', sh_last_data_received = Some 0,
          sh_battery_level = Some 85, sh_signal_strength = Some (- 45),
          sh_updated_at = Some 0\<rparr>]\<rparr> =
   Inr \<lparr>parking_spots =
        [\<lparr>ps_id = ''PARK_001'', ps_is_occupied = Some False, ps_is_reserved = Some False,
          ps_is_disabled = Some False, ps_last_updated = Some 30000000\<rparr>],
      sensor_data =
        [\<lparr>sd_sensor_id = Some ''PARK_001'', sd_timestamp = Some 30000000, sd_occupied = False,
          sd_distance_cm = Some 250.5, sd_battery_level = None, sd_signal_strength = None\<rparr>],
      reservations = [],
      sensor_health =
        [\<lparr>sh_sensor_id = ''PARK_001'', sh_last_data_received = Some 30000000,
          sh_battery_level = Some 85, sh_signal_strength = Some (- 45),
          sh_updated_at = Some 60000000\<rparr>]\<rparr>"
    by (simp add: trigger_update_spot_from_sensor_def update_spot_from_sensor_def)
  from sensor_health_upsert_keeps_values [OF run] run show ?thesis by simp
qed

end
